theory Spec2Isabelle
  imports Main
begin

section \<open>The environment check of Part0-Introduction.ipynb\<close>

text \<open>
  The notebook has two code cells. The first (cell 5) reports the host name and the CUDA
  devices that numba finds; the second (cell 7) selects device 0 and compares its compute
  capability with the course's minimum. Everything the cells do is to call the library,
  read attributes of the objects it returns, and print. The model therefore records, for
  each run of a cell, the sequence of library calls and printed lines (the trace), the
  global variables the cell leaves bound, and whether the cell ended by an exception.
\<close>

subsection \<open>Values, exceptions and the library\<close>

text \<open>
  A Python exception, named by its class. The cells never construct one themselves:
  every exception of a run comes out of a library call.
\<close>

datatype exn = Raised string

text \<open>
  A \<open>bytes\<close> object is a list of 8-bit characters, which is what \<^typ>\<open>char\<close> is.
\<close>

type_synonym bytes = string

text \<open>
  The object that \<open>cuda.list_devices()\<close> yields and that \<open>cuda.select_device\<close> returns.
  The cells read three attributes of it: \<open>id\<close>, \<open>name\<close> (a bytes object) and
  \<open>compute_capability\<close> (a tuple \<open>(major, minor)\<close>). Reading an attribute may raise.
\<close>

record cuda_device =
  id_attr :: "exn + int"
  name :: "exn + bytes"
  compute_capability :: "exn + (int \<times> int)"

text \<open>
  What the imported modules answer during one run: \<open>platform.node()\<close>,
  \<open>cuda.is_available()\<close>, \<open>cuda.list_devices()\<close>, \<open>cuda.select_device(n)\<close> and
  the method \<open>bytes.decode()\<close>. The two import statements are taken to succeed.
\<close>

record library =
  platform_node :: "exn + string"
  cuda_is_available :: "exn + bool"
  cuda_list_devices :: "exn + cuda_device list"
  cuda_select_device :: "int \<Rightarrow> exn + cuda_device"
  decode :: "bytes \<Rightarrow> exn + string"

subsection \<open>Traces and global variables\<close>

datatype attr = Id | Name | ComputeCapability

datatype lib_call =
    PlatformNode
  | IsAvailable
  | ListDevices
  | SelectDevice int
  | GetAttr attr
  | Decode

text \<open>
  An event of a run: a printed line, or a library call together with the exception it
  raised, if any.
\<close>

datatype event = Printed string | Called lib_call "exn option"

text \<open>The global variables the cells assign: the loop variable of cell 5 and the handle of cell 7.\<close>

record globals =
  device :: "cuda_device option"
  my_instance :: "cuda_device option"

definition fresh_globals :: globals where
  "fresh_globals = \<lparr>device = None, my_instance = None\<rparr>"

text \<open>
  A piece of cell code maps the globals to the events it caused, the globals afterwards and
  either the exception that ended it or its value.
\<close>

type_synonym 'a prog = "globals \<Rightarrow> event list \<times> globals \<times> (exn + 'a)"

definition return :: "'a \<Rightarrow> 'a prog" where
  "return a = (\<lambda>g. ([], g, Inr a))"

text \<open>Sequencing: an exception of the first part skips the second.\<close>

definition seq :: "'a prog \<Rightarrow> ('a \<Rightarrow> 'b prog) \<Rightarrow> 'b prog" where
  "seq m f = (\<lambda>g.
     case m g of
       (t, g', Inl e) \<Rightarrow> (t, g', Inl e)
     | (t, g', Inr a) \<Rightarrow> (case f a g' of (t', g'', r) \<Rightarrow> (t @ t', g'', r)))"

definition call :: "lib_call \<Rightarrow> exn + 'a \<Rightarrow> 'a prog" where
  "call c r = (\<lambda>g. ([Called c (case r of Inl e \<Rightarrow> Some e | Inr _ \<Rightarrow> None)], g, r))"

definition assign_device :: "cuda_device \<Rightarrow> unit prog" where
  "assign_device d = (\<lambda>g. ([], g\<lparr>device := Some d\<rparr>, Inr ()))"

definition assign_my_instance :: "cuda_device \<Rightarrow> unit prog" where
  "assign_my_instance d = (\<lambda>g. ([], g\<lparr>my_instance := Some d\<rparr>, Inr ()))"

subsection \<open>Printing\<close>

text \<open>\<open>str\<close> of an integer: decimal digits, with a minus sign for a negative number.\<close>

definition digit_char :: "nat \<Rightarrow> char" where
  "digit_char d = ''0123456789'' ! d"

function str_nat :: "nat \<Rightarrow> string" where
  "str_nat n = (if n < 10 then [digit_char n] else str_nat (n div 10) @ [digit_char (n mod 10)])"
  by pat_completeness auto
termination
  by (relation "measure id") auto

declare str_nat.simps [simp del]

definition str_int :: "int \<Rightarrow> string" where
  "str_int i = (if i < 0 then CHR ''-'' # str_nat (nat (- i)) else str_nat (nat i))"

text \<open>\<open>print(a, b, ...)\<close> writes its arguments separated by single spaces, as one line.\<close>

fun join_args :: "string list \<Rightarrow> string" where
  "join_args [] = []"
| "join_args [a] = a"
| "join_args (a # b # bs) = a @ '' '' @ join_args (b # bs)"

definition print :: "string list \<Rightarrow> unit prog" where
  "print args = (\<lambda>g. ([Printed (join_args args)], g, Inr ()))"

subsection \<open>Cell 5: the device availability check\<close>

definition bar :: string where
  "bar = ''========================================================''"

definition no_device_msg :: string where
  "no_device_msg = ''There doesn't appear to be a CUDA capable device in this system''"

text \<open>The body of the loop: \<open>print("Device ID : ", device.id, " : ", device.name.decode())\<close>.\<close>

definition print_device :: "library \<Rightarrow> cuda_device \<Rightarrow> unit prog" where
  "print_device env d =
     seq (call (GetAttr Id) (id_attr d)) (\<lambda>i.
     seq (call (GetAttr Name) (name d)) (\<lambda>b.
     seq (call Decode (decode env b)) (\<lambda>s.
     print [''Device ID : '', str_int i, '' : '', s])))"

text \<open>\<open>for device in cuda.list_devices(): ...\<close>, over the devices already listed.\<close>

fun for_devices :: "library \<Rightarrow> cuda_device list \<Rightarrow> unit prog" where
  "for_devices env [] = return ()"
| "for_devices env (d # ds) =
     seq (assign_device d) (\<lambda>_.
     seq (print_device env d) (\<lambda>_.
     for_devices env ds))"

definition cell5 :: "library \<Rightarrow> unit prog" where
  "cell5 env =
     seq (print [bar]) (\<lambda>_.
     seq (call PlatformNode (platform_node env)) (\<lambda>node.
     seq (print [''This notebook is running on '', node]) (\<lambda>_.
     seq (print [bar]) (\<lambda>_.
     seq (call IsAvailable (cuda_is_available env)) (\<lambda>available.
     if available
     then seq (call ListDevices (cuda_list_devices env)) (\<lambda>ds. for_devices env ds)
     else print [no_device_msg])))))"

subsection \<open>Cell 7: the compute-capability check\<close>

definition insufficient_msg :: string where
  "insufficient_msg = ''The selected device does not have a sufficient compute capability''"

text \<open>
  The condition \<open>my_instance.compute_capability[0] >= 2 and my_instance.compute_capability[1] >= 1\<close>:
  the attribute is read for the left operand, and read again for the right operand when the
  left one holds.
\<close>

definition capability_test :: "cuda_device \<Rightarrow> bool prog" where
  "capability_test inst =
     seq (call (GetAttr ComputeCapability) (compute_capability inst)) (\<lambda>cc.
     if fst cc \<ge> 2
     then seq (call (GetAttr ComputeCapability) (compute_capability inst)) (\<lambda>cc'.
          return (snd cc' \<ge> 1))
     else return False)"

definition cell7 :: "library \<Rightarrow> unit prog" where
  "cell7 env =
     seq (call (SelectDevice 0) (cuda_select_device env 0)) (\<lambda>inst.
     seq (assign_my_instance inst) (\<lambda>_.
     seq (capability_test inst) (\<lambda>ok.
     if ok
     then seq (call (GetAttr Name) (name inst)) (\<lambda>b.
          seq (call Decode (decode env b)) (\<lambda>s.
          print [''The selected device ('', s, '') has a sufficient compute capability'']))
     else print [insufficient_msg])))"

subsection \<open>The notebook\<close>

text \<open>
  Running the notebook from a fresh kernel executes cell 5 and then cell 7 on the globals
  cell 5 left. Cells are run in order and the run stops at the first cell that raises, so
  an exception in cell 5 ends the run there. The last code cell of the notebook is empty.
\<close>

definition run_notebook :: "library \<Rightarrow> event list \<times> globals \<times> (exn + unit)" where
  "run_notebook env = seq (cell5 env) (\<lambda>_. cell7 env) fresh_globals"

subsection \<open>Reading a trace\<close>

fun stdout_of :: "event list \<Rightarrow> string list" where
  "stdout_of [] = []"
| "stdout_of (Printed s # t) = s # stdout_of t"
| "stdout_of (Called c r # t) = stdout_of t"

fun calls_of :: "event list \<Rightarrow> lib_call list" where
  "calls_of [] = []"
| "calls_of (Printed s # t) = calls_of t"
| "calls_of (Called c r # t) = c # calls_of t"

definition trace :: "event list \<times> globals \<times> (exn + 'a) \<Rightarrow> event list" where
  "trace x = fst x"

definition outcome :: "event list \<times> globals \<times> (exn + 'a) \<Rightarrow> exn + 'a" where
  "outcome x = snd (snd x)"

definition globals_after :: "event list \<times> globals \<times> (exn + 'a) \<Rightarrow> globals" where
  "globals_after x = fst (snd x)"

text \<open>The standard output of a run, line by line.\<close>

definition stdout :: "event list \<times> globals \<times> (exn + 'a) \<Rightarrow> string list" where
  "stdout x = stdout_of (trace x)"

subsection \<open>Example environments\<close>

text \<open>The machine of the notebook's stored output of cell 7: one GeForce GT 710.\<close>

definition gt710 :: cuda_device where
  "gt710 = \<lparr>id_attr = Inr 0, name = Inr ''GeForce GT 710'', compute_capability = Inr (3, 5)\<rparr>"

definition env_gt710 :: library where
  "env_gt710 = \<lparr>platform_node = Inr ''ridcully'', cuda_is_available = Inr True,
     cuda_list_devices = Inr [gt710],
     cuda_select_device = (\<lambda>n. if n = 0 then Inr gt710 else Inl (Raised ''CudaAPIError'')),
     decode = Inr\<rparr>"

text \<open>A machine without a CUDA device, as in the stored output of cell 5.\<close>

definition env_no_device :: library where
  "env_no_device = \<lparr>platform_node = Inr ''ridcully'', cuda_is_available = Inr False,
     cuda_list_devices = Inl (Raised ''CudaSupportError''),
     cuda_select_device = (\<lambda>n. Inl (Raised ''CudaSupportError'')),
     decode = Inr\<rparr>"

text \<open>A second machine whose device passes the check, and one whose device has minor version 0.\<close>

definition k80 :: cuda_device where
  "k80 = \<lparr>id_attr = Inr 0, name = Inr ''Tesla K80'', compute_capability = Inr (3, 7)\<rparr>"

definition env_k80 :: library where
  "env_k80 = \<lparr>platform_node = Inr ''vimes'', cuda_is_available = Inr True,
     cuda_list_devices = Inr [k80],
     cuda_select_device = (\<lambda>n. if n = 0 then Inr k80 else Inl (Raised ''CudaAPIError'')),
     decode = Inr\<rparr>"

definition gtx680 :: cuda_device where
  "gtx680 = \<lparr>id_attr = Inr 0, name = Inr ''GeForce GTX 680'', compute_capability = Inr (3, 0)\<rparr>"

definition env_gtx680 :: library where
  "env_gtx680 = \<lparr>platform_node = Inr ''ridcully'', cuda_is_available = Inr True,
     cuda_list_devices = Inr [gtx680],
     cuda_select_device = (\<lambda>n. if n = 0 then Inr gtx680 else Inl (Raised ''CudaAPIError'')),
     decode = Inr\<rparr>"

text \<open>
  The machine of the notebook's stored outputs taken together: cell 5 found no device, yet
  device 0 could be selected in cell 7.
\<close>

definition env_gt710_undetected :: library where
  "env_gt710_undetected = \<lparr>platform_node = Inr ''ridcully'', cuda_is_available = Inr False,
     cuda_list_devices = Inr [],
     cuda_select_device = (\<lambda>n. if n = 0 then Inr gt710 else Inl (Raised ''CudaAPIError'')),
     decode = Inr\<rparr>"

subsection \<open>Exceptions in a trace\<close>

text \<open>
  \<open>raise_ends_run t r\<close> reads a trace \<open>t\<close> against the exception \<open>r\<close> that ended the
  run, if any: the first library call that raised is the last event of the trace and its
  exception is \<open>r\<close>; a trace in which no call raised belongs to a run that ended normally.
\<close>

fun raise_ends_run :: "event list \<Rightarrow> exn option \<Rightarrow> bool" where
  "raise_ends_run [] r = (r = None)"
| "raise_ends_run (Printed s # t) r = raise_ends_run t r"
| "raise_ends_run (Called c None # t) r = raise_ends_run t r"
| "raise_ends_run (Called c (Some e) # t) r = (t = [] \<and> r = Some e)"

definition raised :: "event list \<times> globals \<times> (exn + 'a) \<Rightarrow> exn option" where
  "raised x = (case outcome x of Inl e \<Rightarrow> Some e | Inr a \<Rightarrow> None)"

definition propagates :: "event list \<times> globals \<times> (exn + 'a) \<Rightarrow> bool" where
  "propagates x = raise_ends_run (trace x) (raised x)"

section \<open>Properties\<close>

lemmas prog_defs =
  seq_def call_def print_def return_def assign_device_def assign_my_instance_def

lemmas run_defs = stdout_def trace_def outcome_def globals_after_def

subsection \<open>Traces of sequences and of the device loop\<close>

lemma stdout_of_append: "stdout_of (t @ u) = stdout_of t @ stdout_of u"
  by (induction t rule: stdout_of.induct) simp_all

lemma calls_of_append: "calls_of (t @ u) = calls_of t @ calls_of u"
  by (induction t rule: calls_of.induct) simp_all

lemma print_device_lines:
  "l \<in> set (stdout_of (fst (print_device env d g))) \<Longrightarrow> take 12 l = ''Device ID : ''"
  by (auto simp: print_device_def prog_defs split: sum.splits)

lemma print_device_calls:
  "set (calls_of (fst (print_device env d g))) \<subseteq> {GetAttr Id, GetAttr Name, Decode}"
  by (auto simp: print_device_def prog_defs split: sum.splits)

lemma for_devices_lines:
  "l \<in> set (stdout_of (fst (for_devices env ds g))) \<Longrightarrow> take 12 l = ''Device ID : ''"
proof (induction ds arbitrary: g)
  case Nil
  then show ?case by (simp add: return_def)
next
  case (Cons d ds)
  obtain t g' r where pd: "print_device env d (g\<lparr>device := Some d\<rparr>) = (t, g', r)"
    by (metis prod_cases3)
  show ?case
  proof (cases r)
    case (Inl e)
    with pd Cons.prems have "l \<in> set (stdout_of (fst (print_device env d (g\<lparr>device := Some d\<rparr>))))"
      by (simp add: seq_def assign_device_def)
    then show ?thesis by (rule print_device_lines)
  next
    case (Inr u)
    with pd Cons.prems have "l \<in> set (stdout_of t) \<or> l \<in> set (stdout_of (fst (for_devices env ds g')))"
      by (auto simp: seq_def assign_device_def stdout_of_append split: prod.splits)
    then show ?thesis
    proof
      assume "l \<in> set (stdout_of t)"
      with pd have "l \<in> set (stdout_of (fst (print_device env d (g\<lparr>device := Some d\<rparr>))))" by simp
      then show ?thesis by (rule print_device_lines)
    next
      assume "l \<in> set (stdout_of (fst (for_devices env ds g')))"
      then show ?thesis by (rule Cons.IH)
    qed
  qed
qed

lemma for_devices_calls:
  "set (calls_of (fst (for_devices env ds g))) \<subseteq> {GetAttr Id, GetAttr Name, Decode}"
proof (induction ds arbitrary: g)
  case Nil
  then show ?case by (simp add: return_def)
next
  case (Cons d ds)
  obtain t g' r where pd: "print_device env d (g\<lparr>device := Some d\<rparr>) = (t, g', r)"
    by (metis prod_cases3)
  have t: "set (calls_of t) \<subseteq> {GetAttr Id, GetAttr Name, Decode}"
    using print_device_calls [of env d "g\<lparr>device := Some d\<rparr>"] pd by simp
  show ?case
  proof (cases r)
    case (Inl e)
    with pd t show ?thesis by (simp add: seq_def assign_device_def)
  next
    case (Inr u)
    with pd t Cons.IH [of g'] show ?thesis
      by (auto simp: seq_def assign_device_def calls_of_append split: prod.splits)
  qed
qed

lemma for_devices_all_ok:
  assumes "\<forall>d \<in> set ds. id_attr d = Inr (ident d) \<and> name d = Inr (raw d) \<and>
              decode env (raw d) = Inr (shown d)"
  shows "stdout_of (fst (for_devices env ds g)) =
           map (\<lambda>d. ''Device ID : '' @ '' '' @ str_int (ident d) @ '' '' @ '' : '' @ '' '' @ shown d) ds \<and>
         snd (snd (for_devices env ds g)) = Inr ()"
  using assms
proof (induction ds arbitrary: g)
  case Nil
  then show ?case by (simp add: return_def)
next
  case (Cons d ds)
  have d: "id_attr d = Inr (ident d)" "name d = Inr (raw d)" "decode env (raw d) = Inr (shown d)"
    using Cons.prems by simp_all
  have rest: "\<forall>d \<in> set ds. id_attr d = Inr (ident d) \<and> name d = Inr (raw d) \<and>
              decode env (raw d) = Inr (shown d)"
    using Cons.prems by simp
  note IH = Cons.IH [OF rest, of "g\<lparr>device := Some d\<rparr>"]
  show ?case
    using d IH
    by (auto simp: print_device_def prog_defs stdout_of_append split: prod.splits)
qed

lemma str_int_0: "str_int 0 = ''0''"
  by (simp add: str_int_def digit_char_def str_nat.simps [of 0])

subsection \<open>The threshold comparison of cell 7\<close>

text \<open>
  C1. Once \<open>select_device(0)\<close> has returned a handle whose compute capability is
  \<open>(major, minor)\<close>, cell 7 prints the sufficiency line exactly when \<open>major \<ge> 2\<close> and
  \<open>minor \<ge> 1\<close>, and the insufficiency message otherwise. The sufficiency line carries the
  decoded name of the device, so on that branch the line appears when the name can be read
  and decoded.
\<close>

theorem cell7_sufficient_iff_thresholds:
  assumes "cuda_select_device env 0 = Inr inst"
    and "compute_capability inst = Inr (major, minor)"
  shows "stdout (cell7 env g) =
     (if 2 \<le> major \<and> 1 \<le> minor
      then (case name inst of
              Inl e \<Rightarrow> []
            | Inr b \<Rightarrow> (case decode env b of
                Inl e \<Rightarrow> []
              | Inr s \<Rightarrow> [''The selected device ('' @ '' '' @ s @ '' '' @
                           '') has a sufficient compute capability'']))
      else [insufficient_msg])"
  using assms
  by (simp add: cell7_def capability_test_def prog_defs run_defs split: sum.splits)

theorem cell7_sufficient_iff_thresholds_witness:
  "stdout (cell7 env_gt710 fresh_globals) =
     [''The selected device ( GeForce GT 710 ) has a sufficient compute capability'']"
  using cell7_sufficient_iff_thresholds [of env_gt710 gt710 3 5 fresh_globals]
  by (simp add: env_gt710_def gt710_def)

text \<open>
  C2. The test is made on each component by itself: a device whose minor version is 0 is
  reported as not sufficient whatever its major version is, for instance one of capability
  \<open>(3, 0)\<close>.
\<close>

theorem cell7_minor_zero_insufficient:
  assumes "cuda_select_device env 0 = Inr inst"
    and "compute_capability inst = Inr (major, 0)"
  shows "stdout (cell7 env g) = [insufficient_msg] \<and> outcome (cell7 env g) = Inr ()"
  using assms
  by (simp add: cell7_def capability_test_def prog_defs run_defs)

theorem cell7_minor_zero_insufficient_witness:
  "stdout (cell7 env_gtx680 fresh_globals) = [insufficient_msg] \<and>
   outcome (cell7 env_gtx680 fresh_globals) = Inr ()"
  using cell7_minor_zero_insufficient [of env_gtx680 gtx680 3 fresh_globals]
  by (simp add: env_gtx680_def gtx680_def)

subsection \<open>The branch of cell 5\<close>

text \<open>
  C3. After the host name has been printed and \<open>cuda.is_available()\<close> has returned \<open>b\<close>,
  cell 5 enumerates the devices exactly when \<open>b\<close> is true. In that case
  \<open>cuda.list_devices()\<close> is called, every line after the three header lines is a device
  line, and when the attributes of the listed devices can be read and their names decoded
  the output is the header followed by the device line of every listed device, in order.
  When \<open>b\<close> is false the one fixed message is printed instead and nothing is enumerated:
  the cell's only library calls are \<open>platform.node()\<close> and \<open>cuda.is_available()\<close>.
  The fixed message is printed exactly when \<open>b\<close> is false.
\<close>

theorem cell5_branch_on_detection:
  assumes "platform_node env = Inr h" and "cuda_is_available env = Inr b"
  shows "(ListDevices \<in> set (calls_of (trace (cell5 env g))) \<longleftrightarrow> b) \<and>
         (no_device_msg \<in> set (stdout (cell5 env g)) \<longleftrightarrow> \<not> b) \<and>
         (b \<longrightarrow> (\<exists>ls. stdout (cell5 env g) =
                    [bar, ''This notebook is running on '' @ '' '' @ h, bar] @ ls \<and>
                    (\<forall>l \<in> set ls. take 12 l = ''Device ID : ''))) \<and>
         (b \<longrightarrow> cuda_list_devices env = Inr ds \<longrightarrow>
              (\<forall>d \<in> set ds. id_attr d = Inr (ident d) \<and> name d = Inr (raw d) \<and>
                 decode env (raw d) = Inr (shown d)) \<longrightarrow>
              stdout (cell5 env g) =
                [bar, ''This notebook is running on '' @ '' '' @ h, bar] @
                map (\<lambda>d. ''Device ID : '' @ '' '' @ str_int (ident d) @ '' '' @ '' : '' @ '' '' @
                       shown d) ds) \<and>
         (\<not> b \<longrightarrow> stdout (cell5 env g) =
                    [bar, ''This notebook is running on '' @ '' '' @ h, bar, no_device_msg] \<and>
                  calls_of (trace (cell5 env g)) = [PlatformNode, IsAvailable])"
proof (cases b)
  case False
  with assms show ?thesis
    by (simp add: cell5_def prog_defs run_defs no_device_msg_def bar_def)
next
  case True
  show ?thesis
  proof (cases "cuda_list_devices env")
    case (Inl e)
    with True assms show ?thesis
      by (simp add: cell5_def prog_defs run_defs no_device_msg_def bar_def)
  next
    case (Inr ds')
    obtain t g' r where fd: "for_devices env ds' g = (t, g', r)"
      by (metis prod_cases3)
    have lines: "\<forall>l \<in> set (stdout_of t). take 12 l = ''Device ID : ''"
      using for_devices_lines [of _ env ds' g] fd by simp
    have run: "cell5 env g =
       ([Printed bar, Called PlatformNode None,
         Printed (''This notebook is running on '' @ '' '' @ h), Printed bar,
         Called IsAvailable None, Called ListDevices None] @ t, g', r)"
      using assms True Inr fd by (simp add: cell5_def prog_defs)
    have out: "stdout (cell5 env g) =
        [bar, ''This notebook is running on '' @ '' '' @ h, bar] @ stdout_of t"
      by (simp add: run run_defs)
    have no: "no_device_msg \<notin> set (stdout_of t)"
      using lines by (auto simp: no_device_msg_def)
    have called: "ListDevices \<in> set (calls_of (trace (cell5 env g)))"
      by (simp add: run run_defs)
    have absent: "no_device_msg \<notin> set (stdout (cell5 env g))"
      using no by (simp add: out) (simp add: no_device_msg_def bar_def)
    have exact: "stdout (cell5 env g) =
                [bar, ''This notebook is running on '' @ '' '' @ h, bar] @
                map (\<lambda>d. ''Device ID : '' @ '' '' @ str_int (ident d) @ '' '' @ '' : '' @ '' '' @
                       shown d) ds"
      if l: "cuda_list_devices env = Inr ds"
        and ok: "\<forall>d \<in> set ds. id_attr d = Inr (ident d) \<and> name d = Inr (raw d) \<and>
                 decode env (raw d) = Inr (shown d)"
    proof -
      from l Inr have "ds' = ds" by simp
      with for_devices_all_ok [OF ok, of g] fd show ?thesis by (simp add: out)
    qed
    show ?thesis
      using True called absent out lines exact by blast
  qed
qed

theorem cell5_branch_on_detection_witness:
  "stdout (cell5 env_no_device fresh_globals) =
     [bar, ''This notebook is running on  ridcully'', bar, no_device_msg] \<and>
   calls_of (trace (cell5 env_no_device fresh_globals)) = [PlatformNode, IsAvailable] \<and>
   stdout (cell5 env_gt710 fresh_globals) =
     [bar, ''This notebook is running on  ridcully'', bar, ''Device ID :  0  :  GeForce GT 710''] \<and>
   ListDevices \<in> set (calls_of (trace (cell5 env_gt710 fresh_globals)))"
  using cell5_branch_on_detection [where env = env_no_device and h = "''ridcully''"
      and b = False and g = fresh_globals]
    cell5_branch_on_detection [where env = env_gt710 and h = "''ridcully''" and b = True
      and g = fresh_globals and ds = "[gt710]" and ident = "\<lambda>_. 0"
      and raw = "\<lambda>_. ''GeForce GT 710''" and shown = "\<lambda>_. ''GeForce GT 710''"]
  by (simp add: env_no_device_def env_gt710_def gt710_def str_int_0)

text \<open>
  C4. When \<open>cuda.is_available()\<close> is true and the attributes of every listed device can
  be read and its name decoded, cell 5 prints, after the header, one line for each device
  of \<open>cuda.list_devices()\<close>, in the order of that list; the line holds the device's
  identifier and its decoded name.
\<close>

theorem cell5_prints_each_device:
  assumes "platform_node env = Inr h"
    and "cuda_is_available env = Inr True"
    and "cuda_list_devices env = Inr ds"
    and "\<forall>d \<in> set ds. id_attr d = Inr (ident d) \<and> name d = Inr (raw d) \<and>
              decode env (raw d) = Inr (shown d)"
  shows "stdout (cell5 env g) =
           [bar, ''This notebook is running on '' @ '' '' @ h, bar] @
           map (\<lambda>d. ''Device ID : '' @ '' '' @ str_int (ident d) @ '' '' @ '' : '' @ '' '' @ shown d) ds \<and>
         outcome (cell5 env g) = Inr ()"
  using assms(1-3) for_devices_all_ok [OF assms(4), of g]
  by (auto simp: cell5_def prog_defs run_defs split: prod.splits)

theorem cell5_prints_each_device_witness:
  "stdout (cell5 env_gt710 fresh_globals) =
     [bar, ''This notebook is running on  ridcully'', bar, ''Device ID :  0  :  GeForce GT 710''] \<and>
   outcome (cell5 env_gt710 fresh_globals) = Inr ()"
  using cell5_prints_each_device [of env_gt710 "''ridcully''" "[gt710]" "\<lambda>_. 0" "\<lambda>_. ''GeForce GT 710''" "\<lambda>_. ''GeForce GT 710''" fresh_globals]
  by (simp add: env_gt710_def gt710_def str_int_0)

subsection \<open>The messages of cell 7\<close>

text \<open>
  C5, as the claim states it, fails: the sufficiency line is not a constant, it carries the
  decoded name of the selected device. Two machines whose devices both pass the comparison
  get different lines.
\<close>

theorem cell7_message_depends_on_name:
  "stdout (cell7 env_gt710 fresh_globals) =
     [''The selected device ( GeForce GT 710 ) has a sufficient compute capability''] \<and>
   stdout (cell7 env_k80 fresh_globals) =
     [''The selected device ( Tesla K80 ) has a sufficient compute capability''] \<and>
   stdout (cell7 env_gt710 fresh_globals) \<noteq> stdout (cell7 env_k80 fresh_globals)"
  by (simp add: cell7_def capability_test_def prog_defs run_defs env_gt710_def gt710_def
      env_k80_def k80_def)

text \<open>
  C5, amended. When \<open>select_device(0)\<close>, the reads of the handle's attributes and the
  decoding of its name succeed, cell 7 prints exactly one line, chosen by the threshold
  comparison alone: the fixed insufficiency message when the comparison fails, and
  otherwise the sufficiency line, which is fixed apart from the device name it embeds.
\<close>

theorem cell7_prints_one_line:
  assumes "cuda_select_device env 0 = Inr inst"
    and "compute_capability inst = Inr (major, minor)"
    and "name inst = Inr b"
    and "decode env b = Inr s"
  shows "stdout (cell7 env g) =
     [if 2 \<le> major \<and> 1 \<le> minor
      then ''The selected device ('' @ '' '' @ s @ '' '' @ '') has a sufficient compute capability''
      else insufficient_msg]"
  using assms
  by (simp add: cell7_def capability_test_def prog_defs run_defs)

theorem cell7_prints_one_line_witness:
  "stdout (cell7 env_k80 fresh_globals) =
     [''The selected device ( Tesla K80 ) has a sufficient compute capability'']"
  using cell7_prints_one_line [of env_k80 k80 3 7 "''Tesla K80''" "''Tesla K80''" fresh_globals]
  by (simp add: env_k80_def k80_def)

subsection \<open>Cell 7 without a device\<close>

text \<open>
  C6. Cell 7 does not look at what cell 5 found: its first action is always the call
  \<open>cuda.select_device(0)\<close>. When that call raises, cell 7 prints neither message and
  ends with the same exception. In particular a notebook run in which cell 5 reported that
  there is no device goes on to call \<open>select_device(0)\<close> and ends with its exception.
\<close>

theorem cell7_select_unguarded:
  "(\<exists>r t. trace (cell7 env g) = Called (SelectDevice 0) r # t) \<and>
   (\<forall>e. cuda_select_device env 0 = Inl e \<longrightarrow>
      cell7 env g = ([Called (SelectDevice 0) (Some e)], g, Inl e)) \<and>
   (\<forall>h e. platform_node env = Inr h \<and> cuda_is_available env = Inr False \<and>
      cuda_select_device env 0 = Inl e \<longrightarrow>
      stdout (run_notebook env) =
        [bar, ''This notebook is running on '' @ '' '' @ h, bar, no_device_msg] \<and>
      calls_of (trace (run_notebook env)) = [PlatformNode, IsAvailable, SelectDevice 0] \<and>
      outcome (run_notebook env) = Inl e)"
proof (intro conjI allI impI)
  show "\<exists>r t. trace (cell7 env g) = Called (SelectDevice 0) r # t"
    by (cases "cuda_select_device env 0")
      (auto simp: cell7_def seq_def call_def run_defs split: prod.splits sum.splits)
next
  fix e assume "cuda_select_device env 0 = Inl e"
  then show "cell7 env g = ([Called (SelectDevice 0) (Some e)], g, Inl e)"
    by (simp add: cell7_def seq_def call_def)
next
  fix h e
  assume a: "platform_node env = Inr h \<and> cuda_is_available env = Inr False \<and>
      cuda_select_device env 0 = Inl e"
  then have run: "run_notebook env =
     ([Printed bar, Called PlatformNode None,
       Printed (''This notebook is running on '' @ '' '' @ h), Printed bar,
       Called IsAvailable None, Printed no_device_msg,
       Called (SelectDevice 0) (Some e)], fresh_globals, Inl e)"
    by (simp add: run_notebook_def cell5_def cell7_def prog_defs)
  show "stdout (run_notebook env) =
        [bar, ''This notebook is running on '' @ '' '' @ h, bar, no_device_msg]"
    by (simp add: run run_defs)
  show "calls_of (trace (run_notebook env)) = [PlatformNode, IsAvailable, SelectDevice 0]"
    by (simp add: run run_defs)
  show "outcome (run_notebook env) = Inl e"
    by (simp add: run run_defs)
qed

theorem cell7_select_unguarded_witness:
  "stdout (run_notebook env_no_device) =
     [bar, ''This notebook is running on  ridcully'', bar, no_device_msg] \<and>
   calls_of (trace (run_notebook env_no_device)) = [PlatformNode, IsAvailable, SelectDevice 0] \<and>
   outcome (run_notebook env_no_device) = Inl (Raised ''CudaSupportError'')"
  using cell7_select_unguarded [of env_no_device fresh_globals]
  by (simp add: env_no_device_def)

subsection \<open>Exceptions are not caught\<close>

lemma raise_ends_run_append:
  "raise_ends_run t None \<Longrightarrow> raise_ends_run u r \<Longrightarrow> raise_ends_run (t @ u) r"
  by (induction t "None :: exn option" rule: raise_ends_run.induct) simp_all

lemma propagates_seq:
  assumes "propagates (m g)" and "\<And>a g'. propagates (f a g')"
  shows "propagates (seq m f g)"
proof -
  obtain t g' r where m: "m g = (t, g', r)" by (metis prod_cases3)
  show ?thesis
  proof (cases r)
    case (Inl e)
    with m assms(1) show ?thesis by (simp add: propagates_def raised_def seq_def run_defs)
  next
    case (Inr a)
    obtain t' g'' r' where f: "f a g' = (t', g'', r')" by (metis prod_cases3)
    have "raise_ends_run t None"
      using assms(1) m Inr by (simp add: propagates_def raised_def run_defs)
    moreover have "raise_ends_run t' (raised (f a g'))"
      using assms(2) [of a g'] f by (simp add: propagates_def run_defs)
    ultimately have "raise_ends_run (t @ t') (raised (f a g'))" by (rule raise_ends_run_append)
    with m Inr f show ?thesis by (simp add: propagates_def raised_def seq_def run_defs)
  qed
qed

lemma propagates_call: "propagates (call c r g)"
  by (cases r) (simp_all add: propagates_def raised_def call_def run_defs)

lemma propagates_print: "propagates (print args g)"
  by (simp add: propagates_def raised_def print_def run_defs)

lemma propagates_return: "propagates (return a g)"
  by (simp add: propagates_def raised_def return_def run_defs)

lemma propagates_assign: "propagates (assign_device d g)" "propagates (assign_my_instance d g)"
  by (simp_all add: propagates_def raised_def assign_device_def assign_my_instance_def run_defs)

lemmas propagates_intros =
  propagates_seq propagates_call propagates_print propagates_return propagates_assign

lemma propagates_print_device: "propagates (print_device env d g)"
  unfolding print_device_def by (intro propagates_intros)

lemma propagates_for_devices: "propagates (for_devices env ds g)"
proof (induction ds arbitrary: g)
  case Nil
  show ?case by (simp add: propagates_return)
next
  case (Cons d ds)
  show ?case
    unfolding for_devices.simps
    by (intro propagates_intros propagates_print_device Cons.IH)
qed

lemma propagates_cell5: "propagates (cell5 env g)"
proof -
  have branch: "propagates ((if b then seq (call ListDevices (cuda_list_devices env)) (\<lambda>ds. for_devices env ds)
     else print [no_device_msg]) g')" for b g'
    by (cases b) (auto intro!: propagates_intros propagates_for_devices)
  show ?thesis
    unfolding cell5_def by (intro propagates_intros branch)
qed

lemma propagates_capability_test: "propagates (capability_test inst g)"
proof -
  have branch: "propagates ((if b then seq (call (GetAttr ComputeCapability) (compute_capability inst))
      (\<lambda>cc'. return (snd cc' \<ge> 1)) else return False) g')" for b g'
    by (cases b) (auto intro!: propagates_intros)
  show ?thesis
    unfolding capability_test_def by (intro propagates_intros branch)
qed

lemma propagates_cell7: "propagates (cell7 env g)"
proof -
  have branch: "propagates ((if ok
     then seq (call (GetAttr Name) (name inst)) (\<lambda>b.
          seq (call Decode (decode env b)) (\<lambda>s.
          print [''The selected device ('', s, '') has a sufficient compute capability'']))
     else print [insufficient_msg]) g')" for ok inst g'
    by (cases ok) (auto intro!: propagates_intros)
  show ?thesis
    unfolding cell7_def by (intro propagates_intros propagates_capability_test branch)
qed

lemma raise_ends_run_last:
  "raise_ends_run t r \<Longrightarrow> t = t1 @ Called c (Some e) # t2 \<Longrightarrow> t2 = [] \<and> r = Some e"
proof (induction t r arbitrary: t1 rule: raise_ends_run.induct)
  case (1 r)
  then show ?case by simp
next
  case (2 s t r)
  then show ?case by (cases t1) auto
next
  case (3 c' t r)
  then show ?case by (cases t1) auto
next
  case (4 c' e' t r)
  then show ?case by (cases t1) auto
qed

lemma raise_ends_run_Some:
  "raise_ends_run t (Some e) \<Longrightarrow> \<exists>t1 c. t = t1 @ [Called c (Some e)]"
proof (induction t "Some e" rule: raise_ends_run.induct)
  case 1
  then show ?case by simp
next
  case (2 s t)
  then obtain t1 c where "t = t1 @ [Called c (Some e)]" by auto
  then have "Printed s # t = (Printed s # t1) @ [Called c (Some e)]" by simp
  then show ?case by blast
next
  case (3 c' t)
  then obtain t1 c where "t = t1 @ [Called c (Some e)]" by auto
  then have "Called c' None # t = (Called c' None # t1) @ [Called c (Some e)]" by simp
  then show ?case by blast
next
  case (4 c' e' t)
  then have "Called c' (Some e') # t = [] @ [Called c' (Some e)]" by simp
  then show ?case by blast
qed

text \<open>
  C7. In a run of either cell, a library call that raises is the last event of the run:
  nothing is printed or called after it, and the cell ends with that very exception.
  Conversely a cell only ever ends with an exception that its last library call raised.
\<close>

theorem cells_propagate_exceptions:
  "\<forall>x \<in> {cell5 env g, cell7 env g}.
     (\<forall>t1 c e t2. trace x = t1 @ Called c (Some e) # t2 \<longrightarrow> t2 = [] \<and> outcome x = Inl e) \<and>
     (\<forall>e. outcome x = Inl e \<longrightarrow> (\<exists>t1 c. trace x = t1 @ [Called c (Some e)]))"
proof
  fix x :: "event list \<times> globals \<times> (exn + unit)"
  assume "x \<in> {cell5 env g, cell7 env g}"
  then have "propagates x" using propagates_cell5 propagates_cell7 by auto
  then have r: "raise_ends_run (trace x) (raised x)" by (simp add: propagates_def)
  show "(\<forall>t1 c e t2. trace x = t1 @ Called c (Some e) # t2 \<longrightarrow> t2 = [] \<and> outcome x = Inl e) \<and>
     (\<forall>e. outcome x = Inl e \<longrightarrow> (\<exists>t1 c. trace x = t1 @ [Called c (Some e)]))"
  proof (intro conjI allI impI)
    fix t1 c e t2 assume "trace x = t1 @ Called c (Some e) # t2"
    with r have "t2 = [] \<and> raised x = Some e" by (rule raise_ends_run_last)
    then show "t2 = []" "outcome x = Inl e" by (simp_all add: raised_def split: sum.splits)
  next
    fix e assume "outcome x = Inl e"
    then have "raised x = Some e" by (simp add: raised_def)
    with r show "\<exists>t1 c. trace x = t1 @ [Called c (Some e)]"
      using raise_ends_run_Some by metis
  qed
qed

theorem cells_propagate_exceptions_witness:
  "outcome (cell7 env_no_device fresh_globals) = Inl (Raised ''CudaSupportError'') \<and>
   stdout (cell7 env_no_device fresh_globals) = []"
proof -
  have tr: "trace (cell7 env_no_device fresh_globals) =
      [] @ Called (SelectDevice 0) (Some (Raised ''CudaSupportError'')) # []"
    by (simp add: cell7_def seq_def call_def run_defs env_no_device_def)
  have "cell7 env_no_device fresh_globals \<in>
      {cell5 env_no_device fresh_globals, cell7 env_no_device fresh_globals}"
    by simp
  with cells_propagate_exceptions [of env_no_device fresh_globals] tr
  have "outcome (cell7 env_no_device fresh_globals) = Inl (Raised ''CudaSupportError'')"
    by blast
  moreover have "stdout (cell7 env_no_device fresh_globals) = []"
    using tr by (simp add: stdout_def)
  ultimately show ?thesis by simp
qed

subsection \<open>Reads of the compute capability\<close>

text \<open>
  C8, as the claim states it, fails: on the machine of the stored output the attribute
  \<open>compute_capability\<close> is read twice in one run of cell 7.
\<close>

theorem cell7_reads_capability_twice:
  "count_list (calls_of (trace (cell7 env_gt710 fresh_globals))) (GetAttr ComputeCapability) = 2"
  by (simp add: cell7_def capability_test_def prog_defs run_defs env_gt710_def gt710_def)

text \<open>
  C8, amended. The handle is obtained by exactly one call of \<open>select_device(0)\<close>. Its
  attribute \<open>compute_capability\<close> is read once for the comparison of the major version
  with the literal 2 and, only when that comparison holds, a second time for the comparison
  of the minor version with the literal 1: twice when \<open>major \<ge> 2\<close>, once otherwise. The
  test yields \<open>major \<ge> 2 \<and> minor \<ge> 1\<close>, and the insufficiency message is printed
  exactly when it is false.
\<close>

theorem cell7_capability_reads:
  assumes "cuda_select_device env 0 = Inr inst"
    and "compute_capability inst = Inr (major, minor)"
  shows "count_list (calls_of (trace (cell7 env g))) (GetAttr ComputeCapability) =
           (if 2 \<le> major then 2 else 1) \<and>
         count_list (calls_of (trace (cell7 env g))) (SelectDevice 0) = 1 \<and>
         capability_test inst g =
           (Called (GetAttr ComputeCapability) None #
              (if 2 \<le> major then [Called (GetAttr ComputeCapability) None] else []),
            g, Inr (2 \<le> major \<and> 1 \<le> minor)) \<and>
         (insufficient_msg \<in> set (stdout (cell7 env g)) \<longleftrightarrow> \<not> (2 \<le> major \<and> 1 \<le> minor))"
proof -
  have counts: "count_list (calls_of (trace (cell7 env g))) (GetAttr ComputeCapability) =
           (if 2 \<le> major then 2 else 1) \<and>
         count_list (calls_of (trace (cell7 env g))) (SelectDevice 0) = 1"
    using assms
    by (simp add: cell7_def capability_test_def prog_defs run_defs split: sum.splits)
  have test: "capability_test inst g =
           (Called (GetAttr ComputeCapability) None #
              (if 2 \<le> major then [Called (GetAttr ComputeCapability) None] else []),
            g, Inr (2 \<le> major \<and> 1 \<le> minor))"
    using assms(2) by (simp add: capability_test_def prog_defs)
  have msg: "insufficient_msg \<in> set (stdout (cell7 env g)) \<longleftrightarrow> \<not> (2 \<le> major \<and> 1 \<le> minor)"
    using assms
    by (simp add: cell7_def capability_test_def prog_defs run_defs insufficient_msg_def
        split: sum.splits)
  show ?thesis using counts test msg by simp
qed

theorem cell7_capability_reads_witness:
  "count_list (calls_of (trace (cell7 env_gtx680 fresh_globals))) (GetAttr ComputeCapability) = 2 \<and>
   count_list (calls_of (trace (cell7 env_gtx680 fresh_globals))) (SelectDevice 0) = 1 \<and>
   capability_test gtx680 fresh_globals =
     ([Called (GetAttr ComputeCapability) None, Called (GetAttr ComputeCapability) None],
      fresh_globals, Inr False) \<and>
   insufficient_msg \<in> set (stdout (cell7 env_gtx680 fresh_globals))"
  using cell7_capability_reads [of env_gtx680 gtx680 3 0 fresh_globals]
  by (simp add: env_gtx680_def gtx680_def)

subsection \<open>Cell 7 does not depend on cell 5\<close>

text \<open>
  C9. Take two runs in which \<open>select_device(0)\<close> answers the same (and with it the
  attributes of the handle) and \<open>decode\<close> is the same function. Whatever
  \<open>platform.node()\<close>, \<open>cuda.is_available()\<close> and \<open>cuda.list_devices()\<close> returned in
  the two runs, and whatever globals cell 5 left behind, cell 7 performs the same calls,
  prints the same lines and ends the same way.
\<close>

theorem cell7_independent_of_cell5:
  assumes "cuda_select_device e1 0 = cuda_select_device e2 0"
    and "decode e1 = decode e2"
  shows "trace (cell7 e1 g1) = trace (cell7 e2 g2) \<and>
         stdout (cell7 e1 g1) = stdout (cell7 e2 g2) \<and>
         outcome (cell7 e1 g1) = outcome (cell7 e2 g2)"
  using assms
  by (simp add: cell7_def capability_test_def prog_defs run_defs split: sum.splits)

theorem cell7_independent_of_cell5_witness:
  "stdout (cell7 env_gt710 (globals_after (cell5 env_gt710 fresh_globals))) =
   stdout (cell7 env_gt710_undetected (globals_after (cell5 env_gt710_undetected fresh_globals)))"
  using cell7_independent_of_cell5 [of env_gt710 env_gt710_undetected
      "globals_after (cell5 env_gt710 fresh_globals)"
      "globals_after (cell5 env_gt710_undetected fresh_globals)"]
  by (simp add: env_gt710_def env_gt710_undetected_def)

subsection \<open>One pass through the notebook\<close>

lemma cell7_calls:
  "\<exists>cs. calls_of (trace (cell7 env g)) = SelectDevice 0 # cs \<and>
        set cs \<subseteq> {GetAttr ComputeCapability, GetAttr Name, Decode}"
  by (auto simp: cell7_def capability_test_def prog_defs run_defs split: sum.splits prod.splits)

lemma cell7_stdout_length: "length (stdout (cell7 env g)) \<le> 1"
  by (auto simp: cell7_def capability_test_def prog_defs run_defs split: sum.splits prod.splits)

lemma cell5_completed:
  assumes "outcome (cell5 env g) = Inr ()"
  shows "\<exists>h ls cs. platform_node env = Inr h \<and>
     stdout (cell5 env g) = [bar, ''This notebook is running on '' @ '' '' @ h, bar] @ ls \<and>
     (ls = [no_device_msg] \<or> (\<forall>l \<in> set ls. take 12 l = ''Device ID : '')) \<and>
     calls_of (trace (cell5 env g)) = [PlatformNode, IsAvailable] @ cs \<and>
     set cs \<subseteq> {ListDevices, GetAttr Id, GetAttr Name, Decode}"
proof -
  obtain h where h: "platform_node env = Inr h"
    using assms by (cases "platform_node env") (auto simp: cell5_def prog_defs run_defs)
  obtain b where b: "cuda_is_available env = Inr b"
    using assms h by (cases "cuda_is_available env") (auto simp: cell5_def prog_defs run_defs)
  show ?thesis
  proof (cases b)
    case False
    with h b show ?thesis by (simp add: cell5_def prog_defs run_defs)
  next
    case True
    obtain ds where ds: "cuda_list_devices env = Inr ds"
      using assms h b True
      by (cases "cuda_list_devices env") (auto simp: cell5_def prog_defs run_defs)
    obtain t g' r where fd: "for_devices env ds g = (t, g', r)"
      by (metis prod_cases3)
    have lines: "\<forall>l \<in> set (stdout_of t). take 12 l = ''Device ID : ''"
      using for_devices_lines [of _ env ds g] fd by simp
    have calls: "set (calls_of t) \<subseteq> {GetAttr Id, GetAttr Name, Decode}"
      using for_devices_calls [of env ds g] fd by simp
    have run: "cell5 env g =
       ([Printed bar, Called PlatformNode None,
         Printed (''This notebook is running on '' @ '' '' @ h), Printed bar,
         Called IsAvailable None, Called ListDevices None] @ t, g', r)"
      using h b True ds fd by (simp add: cell5_def prog_defs)
    have "stdout (cell5 env g) =
        [bar, ''This notebook is running on '' @ '' '' @ h, bar] @ stdout_of t"
      by (simp add: run run_defs)
    moreover have "calls_of (trace (cell5 env g)) =
        [PlatformNode, IsAvailable] @ (ListDevices # calls_of t)"
      by (simp add: run run_defs)
    moreover have "set (ListDevices # calls_of t) \<subseteq> {ListDevices, GetAttr Id, GetAttr Name, Decode}"
      using calls by auto
    ultimately show ?thesis using h lines by blast
  qed
qed

lemma run_notebook_completed:
  assumes "outcome (cell5 env fresh_globals) = Inr ()"
  shows "trace (run_notebook env) =
           trace (cell5 env fresh_globals) @
           trace (cell7 env (globals_after (cell5 env fresh_globals)))"
  using assms
  by (auto simp: run_notebook_def seq_def run_defs split: prod.splits sum.splits)

text \<open>
  C10. In a run of the notebook in which cell 5 completes, each check runs exactly once and
  in order: the library calls are \<open>platform.node()\<close>, \<open>cuda.is_available()\<close>, the
  enumeration calls of cell 5, then one \<open>select_device(0)\<close> and the reads of cell 7. The
  output is the three header lines, then the device lines or the no-device message, then
  the at most one line of cell 7: all of cell 5's output comes before cell 7's, and the
  lines of a cell come in the order of its print statements.
\<close>

theorem notebook_single_pass:
  assumes "outcome (cell5 env fresh_globals) = Inr ()"
  shows "\<exists>h ls cs5 cs7.
     platform_node env = Inr h \<and>
     stdout (run_notebook env) =
       [bar, ''This notebook is running on '' @ '' '' @ h, bar] @ ls @
       stdout (cell7 env (globals_after (cell5 env fresh_globals))) \<and>
     (ls = [no_device_msg] \<or> (\<forall>l \<in> set ls. take 12 l = ''Device ID : '')) \<and>
     length (stdout (cell7 env (globals_after (cell5 env fresh_globals)))) \<le> 1 \<and>
     calls_of (trace (run_notebook env)) =
       [PlatformNode, IsAvailable] @ cs5 @ [SelectDevice 0] @ cs7 \<and>
     set cs5 \<subseteq> {ListDevices, GetAttr Id, GetAttr Name, Decode} \<and>
     set cs7 \<subseteq> {GetAttr ComputeCapability, GetAttr Name, Decode} \<and>
     count_list (calls_of (trace (run_notebook env))) IsAvailable = 1 \<and>
     count_list (calls_of (trace (run_notebook env))) (SelectDevice 0) = 1"
proof -
  let ?g = "globals_after (cell5 env fresh_globals)"
  obtain h ls cs5 where h: "platform_node env = Inr h"
    and out5: "stdout (cell5 env fresh_globals) =
        [bar, ''This notebook is running on '' @ '' '' @ h, bar] @ ls"
    and ls: "ls = [no_device_msg] \<or> (\<forall>l \<in> set ls. take 12 l = ''Device ID : '')"
    and calls5: "calls_of (trace (cell5 env fresh_globals)) = [PlatformNode, IsAvailable] @ cs5"
    and cs5: "set cs5 \<subseteq> {ListDevices, GetAttr Id, GetAttr Name, Decode}"
    using cell5_completed [OF assms] by blast
  obtain cs7 where calls7: "calls_of (trace (cell7 env ?g)) = SelectDevice 0 # cs7"
    and cs7: "set cs7 \<subseteq> {GetAttr ComputeCapability, GetAttr Name, Decode}"
    using cell7_calls [of env ?g] by blast
  note tr = run_notebook_completed [OF assms]
  have out: "stdout (run_notebook env) =
       [bar, ''This notebook is running on '' @ '' '' @ h, bar] @ ls @ stdout (cell7 env ?g)"
    using out5 by (simp add: stdout_def tr stdout_of_append)
  have calls: "calls_of (trace (run_notebook env)) =
       [PlatformNode, IsAvailable] @ cs5 @ [SelectDevice 0] @ cs7"
    using calls5 calls7 by (simp add: tr calls_of_append)
  have n5: "count_list cs5 IsAvailable = 0" "count_list cs5 (SelectDevice 0) = 0"
    using cs5 by (auto simp: count_list_0_iff)
  have n7: "count_list cs7 IsAvailable = 0" "count_list cs7 (SelectDevice 0) = 0"
    using cs7 by (auto simp: count_list_0_iff)
  have c1: "count_list (calls_of (trace (run_notebook env))) IsAvailable = 1"
    by (simp add: calls n5 n7)
  have c2: "count_list (calls_of (trace (run_notebook env))) (SelectDevice 0) = 1"
    by (simp add: calls n5 n7)
  show ?thesis
    using h out ls cell7_stdout_length [of env ?g] calls cs5 cs7 c1 c2 by blast
qed

theorem notebook_single_pass_witness:
  "stdout (run_notebook env_gt710) =
     [bar, ''This notebook is running on  ridcully'', bar, ''Device ID :  0  :  GeForce GT 710'',
      ''The selected device ( GeForce GT 710 ) has a sufficient compute capability''] \<and>
   count_list (calls_of (trace (run_notebook env_gt710))) IsAvailable = 1 \<and>
   count_list (calls_of (trace (run_notebook env_gt710))) (SelectDevice 0) = 1"
proof -
  have run5: "cell5 env_gt710 fresh_globals =
     ([Printed bar, Called PlatformNode None, Printed ''This notebook is running on  ridcully'',
       Printed bar, Called IsAvailable None, Called ListDevices None,
       Called (GetAttr Id) None, Called (GetAttr Name) None, Called Decode None,
       Printed ''Device ID :  0  :  GeForce GT 710''],
      fresh_globals\<lparr>device := Some gt710\<rparr>, Inr ())"
    by (simp add: cell5_def print_device_def prog_defs env_gt710_def gt710_def str_int_0)
  have done5: "outcome (cell5 env_gt710 fresh_globals) = Inr ()"
    by (simp add: run5 outcome_def)
  have out7: "stdout (cell7 env_gt710 (globals_after (cell5 env_gt710 fresh_globals))) =
     [''The selected device ( GeForce GT 710 ) has a sufficient compute capability'']"
    by (simp add: cell7_def capability_test_def prog_defs run_defs env_gt710_def gt710_def)
  have out5: "stdout (cell5 env_gt710 fresh_globals) =
     [bar, ''This notebook is running on  ridcully'', bar, ''Device ID :  0  :  GeForce GT 710'']"
    by (simp add: run5 run_defs)
  from notebook_single_pass [OF done5]
  obtain h ls where h: "platform_node env_gt710 = Inr h"
    and out: "stdout (run_notebook env_gt710) =
       [bar, ''This notebook is running on '' @ '' '' @ h, bar] @ ls @
       stdout (cell7 env_gt710 (globals_after (cell5 env_gt710 fresh_globals)))"
    and c: "count_list (calls_of (trace (run_notebook env_gt710))) IsAvailable = 1"
      "count_list (calls_of (trace (run_notebook env_gt710))) (SelectDevice 0) = 1"
    by blast
  have tr: "stdout (run_notebook env_gt710) = stdout (cell5 env_gt710 fresh_globals) @
      stdout (cell7 env_gt710 (globals_after (cell5 env_gt710 fresh_globals)))"
    using run_notebook_completed [OF done5] by (simp add: stdout_def stdout_of_append)
  show ?thesis using tr out5 out7 c by simp
qed

end
